theory Spec2Isabelle
  imports Main
begin

section \<open>Scopes of python-inject (src/inject/scopes.py)\<close>

text \<open>
  The module defines \<^verbatim>\<open>AbstractScope\<close> and its subclasses \<^verbatim>\<open>ApplicationScope\<close>,
  \<^verbatim>\<open>ThreadScope\<close> and \<^verbatim>\<open>RequestScope\<close>. A scope object holds a dictionary of
  factories, an object \<^verbatim>\<open>_bindings\<close> with the dictionary interface, and writes to a logger.
  Every method is embedded as a function from the calling thread and the scope before the
  call to the outcome of the call and the scope after it; an exception is an outcome, and
  the scope returned with it is the scope as the raise leaves it.
\<close>

subsection \<open>Values, exceptions, log records\<close>

type_synonym key = string
type_synonym tid = nat

text \<open>
  Python objects. A callable is \<open>Callable i body\<close>: \<open>i\<close> is its identity and \<open>body n\<close>
  is what its call number \<open>n\<close> (counted from 0) does: \<open>Some r\<close> returns \<open>r\<close>, \<open>None\<close>
  raises. So a callable may give a fresh object at each call, as \<^verbatim>\<open>lambda: [1]\<close>
  does. A callable that reads or changes the scope it is bound in is outside this model.
\<close>

datatype pyobj = PyNone | PyInt int | PyStr string | PyRef nat | PyFun callable
  and callable = Callable nat "nat \<Rightarrow> pyobj option"

datatype exc = NoRequestError | FactoryNotCallable pyobj | FactoryRaised | AttributeError

datatype 'a outcome = Returned 'a | Raised exc

text \<open>The four messages the methods pass to \<^verbatim>\<open>self.logger.info\<close>.\<close>

datatype event = Overriding key | Bound key pyobj | Unbound key | UnboundFactory key

subsection \<open>The binding stores\<close>

text \<open>
  \<^verbatim>\<open>_bindings\<close> is a plain \<^verbatim>\<open>dict\<close> (ApplicationScope), a \<^verbatim>\<open>ThreadLocalBindings\<close>
  (ThreadScope) or a \<^verbatim>\<open>RequestLocalBindings\<close> (RequestScope). The last two derive from
  \<^verbatim>\<open>threading.local\<close>: every thread has attributes of its own, set by \<^verbatim>\<open>__init__\<close>
  at the thread's first access, that is \<^verbatim>\<open>_data = {}\<close> and
  \<^verbatim>\<open>request_started = False\<close>. They are functions of the thread here.
\<close>

datatype bindings =
    Dict "key \<rightharpoonup> pyobj"
  | ThreadLocalBindings "tid \<Rightarrow> key \<rightharpoonup> pyobj"
  | RequestLocalBindings "tid \<Rightarrow> key \<rightharpoonup> pyobj" "tid \<Rightarrow> bool"

fun data_of :: "tid \<Rightarrow> bindings \<Rightarrow> (key \<rightharpoonup> pyobj)" where
  "data_of t (Dict d) = d"
| "data_of t (ThreadLocalBindings m) = m t"
| "data_of t (RequestLocalBindings m f) = m t"

fun set_data :: "tid \<Rightarrow> (key \<rightharpoonup> pyobj) \<Rightarrow> bindings \<Rightarrow> bindings" where
  "set_data t d (Dict _) = Dict d"
| "set_data t d (ThreadLocalBindings m) = ThreadLocalBindings (m(t := d))"
| "set_data t d (RequestLocalBindings m f) = RequestLocalBindings (m(t := d)) f"

text \<open>\<^verbatim>\<open>key in b\<close>, \<^verbatim>\<open>b.get(key)\<close>, \<^verbatim>\<open>b[key] = value\<close> and \<^verbatim>\<open>del b[key]\<close>
  (the source deletes only under the membership test).\<close>

definition contains :: "tid \<Rightarrow> bindings \<Rightarrow> key \<Rightarrow> bool" where
  "contains t b k = (data_of t b k \<noteq> None)"

definition get_item :: "tid \<Rightarrow> bindings \<Rightarrow> key \<Rightarrow> pyobj" where
  "get_item t b k = (case data_of t b k of Some v \<Rightarrow> v | None \<Rightarrow> PyNone)"

definition setitem :: "tid \<Rightarrow> bindings \<Rightarrow> key \<Rightarrow> pyobj \<Rightarrow> bindings" where
  "setitem t b k v = set_data t ((data_of t b)(k \<mapsto> v)) b"

definition delitem :: "tid \<Rightarrow> bindings \<Rightarrow> key \<Rightarrow> bindings" where
  "delitem t b k = set_data t ((data_of t b)(k := None)) b"

text \<open>The attribute \<^verbatim>\<open>request_started\<close>; only a \<^verbatim>\<open>RequestLocalBindings\<close> has it.\<close>

fun request_started :: "tid \<Rightarrow> bindings \<Rightarrow> bool" where
  "request_started t (RequestLocalBindings m f) = f t"
| "request_started t _ = False"

subsection \<open>The scope object\<close>

text \<open>
  \<open>logged\<close> is what the scope has sent to its logger, oldest first. \<open>calls\<close> is the trace
  of the factory calls the scope has made, by the identity of the callable.
\<close>

record scope =
  factories :: "key \<rightharpoonup> callable"
  bindings :: bindings
  logged :: "event list"
  calls :: "nat list"

definition info :: "event \<Rightarrow> scope \<Rightarrow> scope" where
  "info e s = s\<lparr>logged := logged s @ [e]\<rparr>"

text \<open>The class of the object: a RequestScope is a scope whose \<^verbatim>\<open>_bindings\<close> is a
  \<^verbatim>\<open>RequestLocalBindings\<close>.\<close>

fun is_RequestLocal :: "bindings \<Rightarrow> bool" where
  "is_RequestLocal (RequestLocalBindings m f) = True"
| "is_RequestLocal _ = False"

definition is_RequestScope :: "scope \<Rightarrow> bool" where
  "is_RequestScope s = is_RequestLocal (bindings s)"

definition active :: "tid \<Rightarrow> scope \<Rightarrow> bool" where
  "active t s = request_started t (bindings s)"

subsection \<open>AbstractScope, with the overrides of RequestScope\<close>

text \<open>
  \<^verbatim>\<open>self.unbind\<close>, \<^verbatim>\<open>self.bind\<close> and \<^verbatim>\<open>self.get\<close> resolve on the class of the
  object: \<open>call_unbind\<close>, \<open>call_bind\<close> and \<open>call_get\<close> are the methods a caller of any
  scope reaches, and the ones \<^verbatim>\<open>AbstractScope.bind\<close> and \<^verbatim>\<open>AbstractScope.get\<close>
  reach through \<^verbatim>\<open>self\<close>.
\<close>

definition is_bound :: "tid \<Rightarrow> scope \<Rightarrow> key \<Rightarrow> bool outcome \<times> scope" where
  "is_bound t s k = (Returned (contains t (bindings s) k), s)"

definition is_factory_bound :: "scope \<Rightarrow> key \<Rightarrow> bool outcome \<times> scope" where
  "is_factory_bound s k = (Returned (factories s k \<noteq> None), s)"

definition AbstractScope_unbind :: "tid \<Rightarrow> scope \<Rightarrow> key \<Rightarrow> pyobj outcome \<times> scope" where
  "AbstractScope_unbind t s k =
     (if contains t (bindings s) k
      then (Returned PyNone, info (Unbound k) (s\<lparr>bindings := delitem t (bindings s) k\<rparr>))
      else (Returned PyNone, s))"

text \<open>\<^verbatim>\<open>RequestScope._request_required\<close>, the first statement of the three overrides.\<close>

definition request_required :: "tid \<Rightarrow> scope \<Rightarrow> pyobj outcome \<times> scope" where
  "request_required t s =
     (if \<not> request_started t (bindings s) then (Raised NoRequestError, s)
      else (Returned PyNone, s))"

definition RequestScope_unbind :: "tid \<Rightarrow> scope \<Rightarrow> key \<Rightarrow> pyobj outcome \<times> scope" where
  "RequestScope_unbind t s k =
     (case request_required t s of
        (Raised e, s0) \<Rightarrow> (Raised e, s0)
      | (Returned _, s0) \<Rightarrow> AbstractScope_unbind t s0 k)"

definition call_unbind :: "tid \<Rightarrow> scope \<Rightarrow> key \<Rightarrow> pyobj outcome \<times> scope" where
  "call_unbind t s k =
     (if is_RequestScope s then RequestScope_unbind t s k else AbstractScope_unbind t s k)"

definition AbstractScope_bind :: "tid \<Rightarrow> scope \<Rightarrow> key \<Rightarrow> pyobj \<Rightarrow> pyobj outcome \<times> scope" where
  "AbstractScope_bind t s k to =
     (case is_bound t s k of
        (Raised e, s0) \<Rightarrow> (Raised e, s0)
      | (Returned b, s0) \<Rightarrow>
          (case (if b then call_unbind t (info (Overriding k) s0) k
                 else (Returned PyNone, s0)) of
             (Raised e, s1) \<Rightarrow> (Raised e, s1)
           | (Returned _, s1) \<Rightarrow>
               (Returned PyNone,
                info (Bound k to) (s1\<lparr>bindings := setitem t (bindings s1) k to\<rparr>))))"

definition RequestScope_bind :: "tid \<Rightarrow> scope \<Rightarrow> key \<Rightarrow> pyobj \<Rightarrow> pyobj outcome \<times> scope" where
  "RequestScope_bind t s k to =
     (case request_required t s of
        (Raised e, s0) \<Rightarrow> (Raised e, s0)
      | (Returned _, s0) \<Rightarrow> AbstractScope_bind t s0 k to)"

definition call_bind :: "tid \<Rightarrow> scope \<Rightarrow> key \<Rightarrow> pyobj \<Rightarrow> pyobj outcome \<times> scope" where
  "call_bind t s k to =
     (if is_RequestScope s then RequestScope_bind t s k to else AbstractScope_bind t s k to)"

definition unbind_factory :: "scope \<Rightarrow> key \<Rightarrow> pyobj outcome \<times> scope" where
  "unbind_factory s k =
     (if factories s k \<noteq> None
      then (Returned PyNone, info (UnboundFactory k) (s\<lparr>factories := (factories s)(k := None)\<rparr>))
      else (Returned PyNone, s))"

text \<open>\<^verbatim>\<open>callable(factory)\<close> holds of the callables only. \<^verbatim>\<open>bind_factory\<close> tests it
  first, and raises before it touches the factories.\<close>

fun is_callable :: "pyobj \<Rightarrow> bool" where
  "is_callable (PyFun c) = True"
| "is_callable _ = False"

definition bind_factory :: "scope \<Rightarrow> key \<Rightarrow> pyobj \<Rightarrow> pyobj outcome \<times> scope" where
  "bind_factory s k factory =
     (if \<not> is_callable factory then (Raised (FactoryNotCallable factory), s)
      else (case unbind_factory s k of
              (Raised e, s1) \<Rightarrow> (Raised e, s1)
            | (Returned _, s1) \<Rightarrow>
                (case factory of
                   PyFun c \<Rightarrow> (Returned PyNone, s1\<lparr>factories := (factories s1)(k \<mapsto> c)\<rparr>)
                 | _ \<Rightarrow> (Raised (FactoryNotCallable factory), s1))))"

text \<open>\<^verbatim>\<open>factory()\<close>: the call is recorded, and its number among the calls of the same
  callable selects what it does.\<close>

definition invoke :: "callable \<Rightarrow> scope \<Rightarrow> pyobj outcome \<times> scope" where
  "invoke c s =
     (case c of Callable i body \<Rightarrow>
        (case body (count_list (calls s) i) of
           Some r \<Rightarrow> (Returned r, s\<lparr>calls := calls s @ [i]\<rparr>)
         | None \<Rightarrow> (Raised FactoryRaised, s\<lparr>calls := calls s @ [i]\<rparr>)))"

definition AbstractScope_get :: "tid \<Rightarrow> scope \<Rightarrow> key \<Rightarrow> pyobj outcome \<times> scope" where
  "AbstractScope_get t s k =
     (if contains t (bindings s) k then (Returned (get_item t (bindings s) k), s)
      else (case factories s k of
              Some factory \<Rightarrow>
                (case invoke factory s of
                   (Raised e, s1) \<Rightarrow> (Raised e, s1)
                 | (Returned inst, s1) \<Rightarrow>
                     (case call_bind t s1 k inst of
                        (Raised e, s2) \<Rightarrow> (Raised e, s2)
                      | (Returned _, s2) \<Rightarrow> (Returned inst, s2)))
            | None \<Rightarrow> (Returned PyNone, s)))"

definition RequestScope_get :: "tid \<Rightarrow> scope \<Rightarrow> key \<Rightarrow> pyobj outcome \<times> scope" where
  "RequestScope_get t s k =
     (case request_required t s of
        (Raised e, s0) \<Rightarrow> (Raised e, s0)
      | (Returned _, s0) \<Rightarrow> AbstractScope_get t s0 k)"

definition call_get :: "tid \<Rightarrow> scope \<Rightarrow> key \<Rightarrow> pyobj outcome \<times> scope" where
  "call_get t s k =
     (if is_RequestScope s then RequestScope_get t s k else AbstractScope_get t s k)"

subsection \<open>RequestScope.start and RequestScope.end\<close>

text \<open>
  \<^verbatim>\<open>start_request\<close> sets the calling thread's flag; \<^verbatim>\<open>end_request\<close> replaces the
  calling thread's \<^verbatim>\<open>_data\<close> by an empty dictionary and clears the flag. The other
  scope classes have neither method.
\<close>

definition RequestScope_start :: "tid \<Rightarrow> scope \<Rightarrow> pyobj outcome \<times> scope" where
  "RequestScope_start t s =
     (case bindings s of
        RequestLocalBindings m f \<Rightarrow>
          (Returned PyNone, s\<lparr>bindings := RequestLocalBindings m (f(t := True))\<rparr>)
      | _ \<Rightarrow> (Raised AttributeError, s))"

definition RequestScope_end :: "tid \<Rightarrow> scope \<Rightarrow> pyobj outcome \<times> scope" where
  "RequestScope_end t s =
     (case bindings s of
        RequestLocalBindings m f \<Rightarrow>
          (Returned PyNone,
           s\<lparr>bindings := RequestLocalBindings (m(t := Map.empty)) (f(t := False))\<rparr>)
      | _ \<Rightarrow> (Raised AttributeError, s))"

subsection \<open>Constructors\<close>

definition new_scope :: "bindings \<Rightarrow> scope" where
  "new_scope b = \<lparr>factories = Map.empty, bindings = b, logged = [], calls = []\<rparr>"

text \<open>\<^verbatim>\<open>ApplicationScope.__init__\<close> binds the new object, \<open>PyRef self\<close>, to its class.\<close>

definition ApplicationScope_init :: "nat \<Rightarrow> scope" where
  "ApplicationScope_init self =
     snd (call_bind 0 (new_scope (Dict Map.empty)) ''ApplicationScope'' (PyRef self))"

definition ThreadScope_init :: scope where
  "ThreadScope_init = new_scope (ThreadLocalBindings (\<lambda>t. Map.empty))"

definition RequestScope_init :: scope where
  "RequestScope_init = new_scope (RequestLocalBindings (\<lambda>t. Map.empty) (\<lambda>t. False))"

subsection \<open>Clients\<close>

text \<open>
  A client is a list of calls, each made by some thread. A call that raises leaves the
  scope as the raise left it, and the client goes on with its next call.
\<close>

datatype op =
    Bind key pyobj | Unbind key | Get key | BindFactory key pyobj | UnbindFactory key
  | Start | End

fun perform :: "tid \<times> op \<Rightarrow> scope \<Rightarrow> pyobj outcome \<times> scope" where
  "perform (t, Bind k v) s = call_bind t s k v"
| "perform (t, Unbind k) s = call_unbind t s k"
| "perform (t, Get k) s = call_get t s k"
| "perform (t, BindFactory k f) s = bind_factory s k f"
| "perform (t, UnbindFactory k) s = unbind_factory s k"
| "perform (t, Start) s = RequestScope_start t s"
| "perform (t, End) s = RequestScope_end t s"

fun run :: "(tid \<times> op) list \<Rightarrow> scope \<Rightarrow> scope" where
  "run [] s = s"
| "run (c # cs) s = run cs (snd (perform c s))"

text \<open>What the logger received between the scope \<open>s\<close> and the later scope \<open>s'\<close>.\<close>

definition logged_since :: "scope \<Rightarrow> scope \<Rightarrow> event list" where
  "logged_since s s' = drop (length (logged s)) (logged s')"

text \<open>Two bodies for the callables of the examples: one returns the same object at every
  call, the other a new object at each call.\<close>

definition const_body :: "pyobj \<Rightarrow> nat \<Rightarrow> pyobj option" where
  "const_body r n = Some r"

definition fresh_body :: "nat \<Rightarrow> pyobj option" where
  "fresh_body n = Some (PyRef n)"

section \<open>Properties\<close>

subsection \<open>Stores and log\<close>

lemma data_of_set_data [simp]: "data_of t (set_data t d b) = d"
  by (cases b) simp_all

lemma request_started_set_data [simp]: "request_started u (set_data t d b) = request_started u b"
  by (cases b) simp_all

lemma is_RequestLocal_set_data [simp]: "is_RequestLocal (set_data t d b) = is_RequestLocal b"
  by (cases b) simp_all

lemma bindings_info [simp]: "bindings (info e s) = bindings s"
  and factories_info [simp]: "factories (info e s) = factories s"
  and calls_info [simp]: "calls (info e s) = calls s"
  and logged_info [simp]: "logged (info e s) = logged s @ [e]"
  by (simp_all add: info_def)

subsection \<open>The outcome of unbind, bind and get\<close>

text \<open>\<open>is_RequestScope s \<longrightarrow> active t s\<close> says that the guard of RequestScope, if the
  scope has it, lets thread \<open>t\<close> pass.\<close>

lemma AbstractScope_unbind_returns: "fst (AbstractScope_unbind t s k) = Returned PyNone"
  by (simp add: AbstractScope_unbind_def)

lemma call_unbind_inactive:
  "is_RequestScope s \<Longrightarrow> \<not> active t s \<Longrightarrow> call_unbind t s k = (Raised NoRequestError, s)"
  by (simp add: call_unbind_def RequestScope_unbind_def request_required_def active_def)

lemma call_unbind_ok:
  "is_RequestScope s \<longrightarrow> active t s \<Longrightarrow> call_unbind t s k = AbstractScope_unbind t s k"
  by (auto simp add: call_unbind_def RequestScope_unbind_def request_required_def active_def)

lemma AbstractScope_bind_ok:
  "is_RequestScope s \<longrightarrow> active t s \<Longrightarrow>
   AbstractScope_bind t s k v =
     (Returned PyNone,
      if data_of t (bindings s) k \<noteq> None
      then s\<lparr>bindings := setitem t (delitem t (bindings s) k) k v,
             logged := logged s @ [Overriding k, Unbound k, Bound k v]\<rparr>
      else s\<lparr>bindings := setitem t (bindings s) k v, logged := logged s @ [Bound k v]\<rparr>)"
  by (auto simp add: AbstractScope_bind_def is_bound_def call_unbind_def
      RequestScope_unbind_def request_required_def AbstractScope_unbind_def active_def is_RequestScope_def contains_def info_def)

lemma call_bind_inactive:
  "is_RequestScope s \<Longrightarrow> \<not> active t s \<Longrightarrow> call_bind t s k v = (Raised NoRequestError, s)"
  by (simp add: call_bind_def RequestScope_bind_def request_required_def active_def)

lemma call_bind_ok:
  "is_RequestScope s \<longrightarrow> active t s \<Longrightarrow> call_bind t s k v = AbstractScope_bind t s k v"
  by (auto simp add: call_bind_def RequestScope_bind_def request_required_def active_def)

lemma call_get_inactive:
  "is_RequestScope s \<Longrightarrow> \<not> active t s \<Longrightarrow> call_get t s k = (Raised NoRequestError, s)"
  by (simp add: call_get_def RequestScope_get_def request_required_def active_def)

lemma call_get_ok:
  "is_RequestScope s \<longrightarrow> active t s \<Longrightarrow> call_get t s k = AbstractScope_get t s k"
  by (auto simp add: call_get_def RequestScope_get_def request_required_def active_def)

lemma invoke_frame [simp]:
  "bindings (snd (invoke c s)) = bindings s"
  "factories (snd (invoke c s)) = factories s"
  "logged (snd (invoke c s)) = logged s"
  by (cases c; simp add: invoke_def split: option.splits)+

lemma invoke_outcome: "fst (invoke c s) \<noteq> Raised NoRequestError"
  by (cases c) (simp add: invoke_def split: option.splits)

lemma AbstractScope_get_outcome:
  assumes "is_RequestScope s \<longrightarrow> active t s"
  shows "fst (AbstractScope_get t s k) \<noteq> Raised NoRequestError"
proof (cases "contains t (bindings s) k")
  case True
  then show ?thesis by (simp add: AbstractScope_get_def)
next
  case False
  show ?thesis
  proof (cases "factories s k")
    case None
    with False show ?thesis by (simp add: AbstractScope_get_def)
  next
    case (Some c)
    obtain r s1 where inv: "invoke c s = (r, s1)" by (cases "invoke c s")
    have b1: "bindings s1 = bindings s" using invoke_frame(1)[of c s] inv by simp
    have ok1: "is_RequestScope s1 \<longrightarrow> active t s1"
      using assms b1 by (simp add: is_RequestScope_def active_def)
    have r: "r \<noteq> Raised NoRequestError" using invoke_outcome[of c s] inv by simp
    show ?thesis
    proof (cases r)
      case (Raised e)
      with False Some inv r show ?thesis by (simp add: AbstractScope_get_def)
    next
      case (Returned inst)
      with False Some inv show ?thesis
        by (simp add: AbstractScope_get_def call_bind_ok[OF ok1] AbstractScope_bind_ok[OF ok1])
    qed
  qed
qed

lemma is_RequestScope_init: "is_RequestScope RequestScope_init"
  by (simp add: RequestScope_init_def new_scope_def is_RequestScope_def)

lemma RequestScope_start_active:
  "is_RequestScope s \<Longrightarrow> active t (snd (RequestScope_start t s))
     \<and> is_RequestScope (snd (RequestScope_start t s))"
  by (cases "bindings s") (simp_all add: is_RequestScope_def RequestScope_start_def active_def)

subsection \<open>What get and bind compute\<close>

lemma AbstractScope_get_bound:
  "data_of t (bindings s) k = Some v \<Longrightarrow> AbstractScope_get t s k = (Returned v, s)"
  by (simp add: AbstractScope_get_def contains_def get_item_def)

lemma AbstractScope_get_absent:
  "data_of t (bindings s) k = None \<Longrightarrow> factories s k = None \<Longrightarrow>
   AbstractScope_get t s k = (Returned PyNone, s)"
  by (simp add: AbstractScope_get_def contains_def)

lemma AbstractScope_get_factory:
  assumes "is_RequestScope s \<longrightarrow> active t s"
    and "data_of t (bindings s) k = None"
    and "factories s k = Some (Callable i body)"
    and "body (count_list (calls s) i) = Some r"
  shows "AbstractScope_get t s k =
     (Returned r, s\<lparr>bindings := setitem t (bindings s) k r, logged := logged s @ [Bound k r],
                    calls := calls s @ [i]\<rparr>)"
proof -
  let ?s1 = "s\<lparr>calls := calls s @ [i]\<rparr>"
  have inv: "invoke (Callable i body) s = (Returned r, ?s1)"
    using assms(4) by (simp add: invoke_def)
  have ok1: "is_RequestScope ?s1 \<longrightarrow> active t ?s1"
    using assms(1) by (simp add: is_RequestScope_def active_def)
  show ?thesis
    using assms(2,3) inv
    by (simp add: AbstractScope_get_def contains_def call_bind_ok[OF ok1]
        AbstractScope_bind_ok[OF ok1])
qed

lemma AbstractScope_get_factory_raises:
  assumes "data_of t (bindings s) k = None"
    and "factories s k = Some (Callable i body)"
    and "body (count_list (calls s) i) = None"
  shows "AbstractScope_get t s k = (Raised FactoryRaised, s\<lparr>calls := calls s @ [i]\<rparr>)"
  using assms by (simp add: AbstractScope_get_def contains_def invoke_def)

lemma data_of_setitem [simp]: "data_of t (setitem t b k v) = (data_of t b)(k \<mapsto> v)"
  by (simp add: setitem_def)

lemma data_of_delitem [simp]: "data_of t (delitem t b k) = (data_of t b)(k := None)"
  by (simp add: delitem_def)



lemma call_bind_state:
  assumes "is_RequestScope s \<longrightarrow> active t s"
  shows "data_of t (bindings (snd (call_bind t s k v))) = (data_of t (bindings s))(k \<mapsto> v)"
    and "is_RequestScope (snd (call_bind t s k v)) = is_RequestScope s"
    and "active t (snd (call_bind t s k v)) = active t s"
    and "calls (snd (call_bind t s k v)) = calls s"
    and "factories (snd (call_bind t s k v)) = factories s"
    and "logged (snd (call_bind t s k v)) = logged s @
          (if data_of t (bindings s) k \<noteq> None then [Overriding k, Unbound k, Bound k v]
           else [Bound k v])"
  using assms
  by (simp_all add: call_bind_ok AbstractScope_bind_ok is_RequestScope_def active_def
      setitem_def delitem_def)

subsection \<open>What start and end compute\<close>

lemma RequestScope_end_eq:
  assumes "is_RequestScope s"
  shows "fst (RequestScope_end t s) = Returned PyNone"
    and "data_of u (bindings (snd (RequestScope_end t s)))
           = (if u = t then Map.empty else data_of u (bindings s))"
    and "active u (snd (RequestScope_end t s)) = (u \<noteq> t \<and> active u s)"
    and "factories (snd (RequestScope_end t s)) = factories s"
    and "calls (snd (RequestScope_end t s)) = calls s"
    and "logged (snd (RequestScope_end t s)) = logged s"
    and "is_RequestScope (snd (RequestScope_end t s))"
  using assms
  by (cases "bindings s"; simp add: is_RequestScope_def RequestScope_end_def active_def)+

lemma RequestScope_start_eq:
  assumes "is_RequestScope s"
  shows "fst (RequestScope_start t s) = Returned PyNone"
    and "data_of u (bindings (snd (RequestScope_start t s))) = data_of u (bindings s)"
    and "active u (snd (RequestScope_start t s)) = (u = t \<or> active u s)"
    and "factories (snd (RequestScope_start t s)) = factories s"
    and "calls (snd (RequestScope_start t s)) = calls s"
    and "logged (snd (RequestScope_start t s)) = logged s"
    and "is_RequestScope (snd (RequestScope_start t s))"
  using assms
  by (cases "bindings s"; simp add: is_RequestScope_def RequestScope_start_def active_def)+

lemma RequestScope_start_twice:
  assumes "is_RequestScope s"
  shows "snd (RequestScope_start t (snd (RequestScope_start t s))) = snd (RequestScope_start t s)"
  using assms
  by (cases "bindings s") (simp_all add: is_RequestScope_def RequestScope_start_def)

subsection \<open>Clients: the log grows, a binding stays\<close>

text \<open>Every call extends the log.\<close>

lemma call_unbind_log:
  "\<exists>es. logged (snd (call_unbind u s j)) = logged s @ es"
  by (simp add: call_unbind_def RequestScope_unbind_def request_required_def
      AbstractScope_unbind_def)

lemma call_bind_log:
  "\<exists>es. logged (snd (call_bind u s j v)) = logged s @ es"
proof (cases "is_RequestScope s \<longrightarrow> active u s")
  case True
  then show ?thesis by (simp add: call_bind_state(6))
next
  case False
  then show ?thesis by (simp add: call_bind_inactive)
qed

lemma AbstractScope_get_log:
  assumes "is_RequestScope s \<longrightarrow> active u s"
  shows "\<exists>es. logged (snd (AbstractScope_get u s j)) = logged s @ es"
proof (cases "data_of u (bindings s) j")
  case (Some v)
  then show ?thesis by (simp add: AbstractScope_get_bound)
next
  case None
  show ?thesis
  proof (cases "factories s j")
    case fn: None
    with None show ?thesis by (simp add: AbstractScope_get_absent)
  next
    case (Some c)
    obtain i body where c: "c = Callable i body" by (cases c)
    show ?thesis
    proof (cases "body (count_list (calls s) i)")
      case bn: None
      with None Some c show ?thesis by (simp add: AbstractScope_get_factory_raises)
    next
      case (Some r)
      with None \<open>factories s j = Some c\<close> c assms show ?thesis
        by (simp add: AbstractScope_get_factory)
    qed
  qed
qed

lemma call_get_log:
  "\<exists>es. logged (snd (call_get u s j)) = logged s @ es"
proof (cases "is_RequestScope s \<longrightarrow> active u s")
  case True
  then show ?thesis by (simp add: call_get_ok AbstractScope_get_log)
next
  case False
  then show ?thesis by (simp add: call_get_inactive)
qed

lemma perform_log: "\<exists>es. logged (snd (perform c s)) = logged s @ es"
proof (cases c)
  case (Pair u o1)
  show ?thesis
  proof (cases o1)
    case (Bind j v)
    with Pair show ?thesis by (simp add: call_bind_log)
  next
    case (Unbind j)
    with Pair show ?thesis by (simp add: call_unbind_log)
  next
    case (Get j)
    with Pair show ?thesis by (simp add: call_get_log)
  next
    case (BindFactory j f)
    with Pair show ?thesis by (cases f) (simp_all add: bind_factory_def unbind_factory_def)
  next
    case (UnbindFactory j)
    with Pair show ?thesis by (simp add: unbind_factory_def)
  next
    case Start
    with Pair show ?thesis by (simp add: RequestScope_start_def split: bindings.splits)
  next
    case End
    with Pair show ?thesis by (simp add: RequestScope_end_def split: bindings.splits)
  qed
qed

lemma run_log: "\<exists>es. logged (run cs s) = logged s @ es"
proof (induction cs arbitrary: s)
  case Nil
  show ?case by simp
next
  case (Cons c cs)
  obtain e1 where e1: "logged (snd (perform c s)) = logged s @ e1"
    using perform_log by blast
  obtain e2 where e2: "logged (run cs (snd (perform c s))) = logged (snd (perform c s)) @ e2"
    using Cons.IH by blast
  show ?case using e1 e2 by simp
qed

lemma logged_since_trans:
  assumes "logged s1 = logged s @ e1" and "logged s2 = logged s1 @ e2"
  shows "logged_since s s2 = e1 @ e2" and "logged_since s s1 = e1" and "logged_since s1 s2 = e2"
  using assms by (simp_all add: logged_since_def)

text \<open>
  The calling thread \<open>t\<close> keeps its binding \<open>k \<mapsto> r\<close>, and its started request, through
  a call by any thread \<open>u\<close>, unless the call logs \<open>Unbound k\<close> or is \<open>t\<close>'s own
  \<^verbatim>\<open>end()\<close>.
\<close>

lemma call_unbind_keeps:
  assumes "data_of t (bindings s) k = Some r" and "is_RequestScope s \<longrightarrow> active t s"
    and "Unbound k \<notin> set (logged_since s (snd (call_unbind u s j)))"
  shows "data_of t (bindings (snd (call_unbind u s j))) k = Some r
       \<and> is_RequestScope (snd (call_unbind u s j)) = is_RequestScope s
       \<and> (is_RequestScope s \<longrightarrow> active t (snd (call_unbind u s j)))"
  using assms
  by (cases "bindings s")
     (auto simp add: call_unbind_def RequestScope_unbind_def request_required_def
        AbstractScope_unbind_def
        is_RequestScope_def active_def contains_def delitem_def logged_since_def)

lemma call_bind_keeps:
  assumes "data_of t (bindings s) k = Some r" and "is_RequestScope s \<longrightarrow> active t s"
    and "Unbound k \<notin> set (logged_since s (snd (call_bind u s j v)))"
  shows "data_of t (bindings (snd (call_bind u s j v))) k = Some r
       \<and> is_RequestScope (snd (call_bind u s j v)) = is_RequestScope s
       \<and> (is_RequestScope s \<longrightarrow> active t (snd (call_bind u s j v)))"
proof (cases "is_RequestScope s \<longrightarrow> active u s")
  case False
  with assms show ?thesis by (simp add: call_bind_inactive)
next
  case ok: True
  show ?thesis
    using assms
    by (cases "bindings s")
       (auto simp add: call_bind_ok[OF ok] AbstractScope_bind_ok[OF ok]
          is_RequestScope_def active_def setitem_def delitem_def logged_since_def
          split: if_splits)
qed

lemma call_get_keeps:
  assumes "data_of t (bindings s) k = Some r" and "is_RequestScope s \<longrightarrow> active t s"
  shows "data_of t (bindings (snd (call_get u s j))) k = Some r
       \<and> is_RequestScope (snd (call_get u s j)) = is_RequestScope s
       \<and> (is_RequestScope s \<longrightarrow> active t (snd (call_get u s j)))"
proof (cases "is_RequestScope s \<longrightarrow> active u s")
  case False
  with assms show ?thesis by (simp add: call_get_inactive)
next
  case ok: True
  show ?thesis
  proof (cases "data_of u (bindings s) j")
    case (Some v)
    with assms show ?thesis by (simp add: call_get_ok[OF ok] AbstractScope_get_bound)
  next
    case None
    show ?thesis
    proof (cases "factories s j")
      case fn: None
      with None assms show ?thesis by (simp add: call_get_ok[OF ok] AbstractScope_get_absent)
    next
      case (Some c)
      obtain i body where c: "c = Callable i body" by (cases c)
      show ?thesis
      proof (cases "body (count_list (calls s) i)")
        case bn: None
        with None Some c assms show ?thesis
          by (simp add: call_get_ok[OF ok] AbstractScope_get_factory_raises
              is_RequestScope_def active_def)
      next
        case sr: (Some r')
        have eq: "call_get u s j =
            (Returned r', s\<lparr>bindings := setitem u (bindings s) j r',
               logged := logged s @ [Bound j r'], calls := calls s @ [i]\<rparr>)"
          using None Some c sr by (simp add: call_get_ok[OF ok] AbstractScope_get_factory[OF ok])
        show ?thesis
          using assms None
          by (cases "bindings s")
             (auto simp add: eq is_RequestScope_def active_def setitem_def)
      qed
    qed
  qed
qed

lemma perform_keeps:
  assumes "data_of t (bindings s) k = Some r" and "is_RequestScope s \<longrightarrow> active t s"
    and "Unbound k \<notin> set (logged_since s (snd (perform c s)))"
    and "is_RequestScope s \<longrightarrow> c \<noteq> (t, End)"
  shows "data_of t (bindings (snd (perform c s))) k = Some r
       \<and> is_RequestScope (snd (perform c s)) = is_RequestScope s
       \<and> (is_RequestScope s \<longrightarrow> active t (snd (perform c s)))"
proof (cases c)
  case (Pair u o1)
  show ?thesis
  proof (cases o1)
    case (Bind j v)
    with Pair assms show ?thesis using call_bind_keeps[of t s k r u j v] by simp
  next
    case (Unbind j)
    with Pair assms show ?thesis using call_unbind_keeps[of t s k r u j] by simp
  next
    case (Get j)
    with Pair assms show ?thesis using call_get_keeps[of t s k r u j] by simp
  next
    case (BindFactory j f)
    with Pair assms show ?thesis
      by (cases f)
         (simp_all add: bind_factory_def unbind_factory_def is_RequestScope_def active_def)
  next
    case (UnbindFactory j)
    with Pair assms show ?thesis
      by (simp add: unbind_factory_def is_RequestScope_def active_def)
  next
    case Start
    with Pair assms show ?thesis
      by (cases "bindings s")
         (simp_all add: RequestScope_start_def is_RequestScope_def active_def)
  next
    case End
    with Pair assms show ?thesis
      by (cases "bindings s")
         (auto simp add: RequestScope_end_def is_RequestScope_def active_def)
  qed
qed

lemma run_keeps:
  assumes "data_of t (bindings s) k = Some r" and "is_RequestScope s \<longrightarrow> active t s"
    and "Unbound k \<notin> set (logged_since s (run cs s))"
    and "is_RequestScope s \<longrightarrow> (t, End) \<notin> set cs"
  shows "data_of t (bindings (run cs s)) k = Some r
       \<and> (is_RequestScope (run cs s) \<longrightarrow> active t (run cs s))"
  using assms
proof (induction cs arbitrary: s)
  case Nil
  then show ?case by simp
next
  case (Cons c cs)
  let ?s1 = "snd (perform c s)"
  obtain e1 where e1: "logged ?s1 = logged s @ e1" using perform_log by blast
  obtain e2 where e2: "logged (run cs ?s1) = logged ?s1 @ e2" using run_log by blast
  have all: "logged_since s (run (c # cs) s) = e1 @ e2"
    using logged_since_trans(1)[OF e1 e2] by simp
  have n1: "Unbound k \<notin> set (logged_since s ?s1)"
    using Cons.prems(3) all logged_since_trans(2)[OF e1 e2] by simp
  have n2: "Unbound k \<notin> set (logged_since ?s1 (run cs ?s1))"
    using Cons.prems(3) all logged_since_trans(3)[OF e1 e2] by simp
  have ne: "is_RequestScope s \<longrightarrow> c \<noteq> (t, End)" using Cons.prems(4) by auto
  have k1: "data_of t (bindings ?s1) k = Some r \<and> is_RequestScope ?s1 = is_RequestScope s
      \<and> (is_RequestScope s \<longrightarrow> active t ?s1)"
    by (rule perform_keeps[OF Cons.prems(1,2) n1 ne])
  have "data_of t (bindings (run cs ?s1)) k = Some r
      \<and> (is_RequestScope (run cs ?s1) \<longrightarrow> active t (run cs ?s1))"
    using Cons.IH[of ?s1] k1 n2 Cons.prems(4) by simp
  then show ?case by simp
qed

subsection \<open>The scopes of the examples\<close>

lemma ApplicationScope_init_eq:
  "ApplicationScope_init self =
     \<lparr>factories = Map.empty, bindings = Dict [''ApplicationScope'' \<mapsto> PyRef self],
      logged = [Bound ''ApplicationScope'' (PyRef self)], calls = []\<rparr>"
  by (simp add: ApplicationScope_init_def call_bind_def AbstractScope_bind_def is_bound_def
      new_scope_def is_RequestScope_def contains_def setitem_def info_def)

lemma ThreadScope_bind_factory_eq:
  "bind_factory ThreadScope_init k (PyFun c) =
     (Returned PyNone,
      \<lparr>factories = [k \<mapsto> c], bindings = ThreadLocalBindings (\<lambda>t. Map.empty),
       logged = [], calls = []\<rparr>)"
  by (simp add: bind_factory_def unbind_factory_def ThreadScope_init_def new_scope_def)

text \<open>The definitions that evaluate a client on a concrete scope.\<close>

lemmas scope_defs =
  RequestScope_init_def ThreadScope_init_def new_scope_def bind_factory_def unbind_factory_def
  RequestScope_start_def RequestScope_end_def request_required_def
  call_bind_def RequestScope_bind_def AbstractScope_bind_def
  call_unbind_def RequestScope_unbind_def AbstractScope_unbind_def
  call_get_def RequestScope_get_def AbstractScope_get_def invoke_def
  is_bound_def is_factory_bound_def is_RequestScope_def active_def contains_def get_item_def
  setitem_def delitem_def info_def fresh_body_def const_body_def logged_since_def

subsection \<open>C1: bind_factory with an object that is not callable\<close>

text \<open>
  C1, as the code has it. \<^verbatim>\<open>bind_factory\<close> tests \<^verbatim>\<open>callable(factory)\<close> before it
  calls \<^verbatim>\<open>unbind_factory\<close>. So for every scope and every key \<open>k\<close> with a factory bound,
  \<^verbatim>\<open>bind_factory(k, x)\<close> with \<open>x\<close> not callable raises \<^verbatim>\<open>FactoryNotCallable(x)\<close> and
  leaves the scope as it was: the factory bound before is still bound after the failed call.
\<close>

theorem bind_factory_not_callable:
  assumes "fst (is_factory_bound s k) = Returned True" and "\<not> is_callable x"
  shows "bind_factory s k x = (Raised (FactoryNotCallable x), s)
       \<and> fst (is_factory_bound (snd (bind_factory s k x)) k) = Returned True"
  using assms by (simp add: bind_factory_def)

text \<open>The theorem at a ThreadScope with a factory bound for \<open>''k''\<close> and the string
  \<open>''x''\<close> as the new factory.\<close>

theorem bind_factory_not_callable_witness:
  "bind_factory (snd (bind_factory ThreadScope_init ''k'' (PyFun (Callable 0 (const_body (PyInt 1))))))
      ''k'' (PyStr ''x'')
    = (Raised (FactoryNotCallable (PyStr ''x'')),
       snd (bind_factory ThreadScope_init ''k'' (PyFun (Callable 0 (const_body (PyInt 1))))))"
proof -
  let ?s = "snd (bind_factory ThreadScope_init ''k'' (PyFun (Callable 0 (const_body (PyInt 1)))))"
  have b: "fst (is_factory_bound ?s ''k'') = Returned True"
    by (simp add: bind_factory_def unbind_factory_def is_factory_bound_def ThreadScope_init_def
        new_scope_def)
  have c: "\<not> is_callable (PyStr ''x'')" by simp
  from bind_factory_not_callable[OF b c] show ?thesis by simp
qed

text \<open>
  C1 as it is worded says that the failed call leaves \<open>k\<close> without a factory. On a
  ThreadScope with a factory bound for \<open>''k''\<close>, \<^verbatim>\<open>bind_factory(''k'', 5)\<close> raises and
  \<^verbatim>\<open>is_factory_bound(''k'')\<close> is still true.
\<close>

theorem bind_factory_not_callable_cex:
  "fst (bind_factory (snd (bind_factory ThreadScope_init ''k'' (PyFun (Callable 0 (const_body (PyInt 1))))))
         ''k'' (PyInt 5)) = Raised (FactoryNotCallable (PyInt 5))
   \<and> fst (is_factory_bound
         (snd (bind_factory (snd (bind_factory ThreadScope_init ''k'' (PyFun (Callable 0 (const_body (PyInt 1))))))
                ''k'' (PyInt 5))) ''k'') = Returned True"
  by (simp add: bind_factory_def unbind_factory_def is_factory_bound_def ThreadScope_init_def
      new_scope_def)

subsection \<open>C2: the guard of RequestScope\<close>

text \<open>
  C2. On a RequestScope and for every calling thread \<open>t\<close>, each of \<^verbatim>\<open>bind\<close>,
  \<^verbatim>\<open>unbind\<close> and \<^verbatim>\<open>get\<close> raises \<^verbatim>\<open>NoRequestError\<close> exactly when the thread's
  \<^verbatim>\<open>request_started\<close> flag is false, and then leaves the scope as it was; when the flag
  is true the call is the call of the method inherited from AbstractScope.
\<close>

theorem RequestScope_guard:
  assumes "is_RequestScope s"
  shows "((fst (call_bind t s k v) = Raised NoRequestError) = (\<not> active t s))
       \<and> ((fst (call_unbind t s k) = Raised NoRequestError) = (\<not> active t s))
       \<and> ((fst (call_get t s k) = Raised NoRequestError) = (\<not> active t s))
       \<and> (\<not> active t s \<longrightarrow> snd (call_bind t s k v) = s \<and> snd (call_unbind t s k) = s
             \<and> snd (call_get t s k) = s)
       \<and> (active t s \<longrightarrow> call_bind t s k v = AbstractScope_bind t s k v
             \<and> call_unbind t s k = AbstractScope_unbind t s k
             \<and> call_get t s k = AbstractScope_get t s k)"
proof (cases "active t s")
  case False
  with assms show ?thesis
    by (simp add: call_bind_inactive call_unbind_inactive call_get_inactive)
next
  case True
  then have ok: "is_RequestScope s \<longrightarrow> active t s" by simp
  have "fst (AbstractScope_get t s k) \<noteq> Raised NoRequestError"
    by (rule AbstractScope_get_outcome[OF ok])
  with True show ?thesis
    by (simp add: call_bind_ok[OF ok] call_unbind_ok[OF ok] call_get_ok[OF ok]
        AbstractScope_bind_ok[OF ok] AbstractScope_unbind_returns)
qed

text \<open>The theorem at a new RequestScope, where all three raise, and at the same scope
  after \<^verbatim>\<open>start()\<close>, where \<^verbatim>\<open>bind\<close> is the inherited method and does not raise.\<close>

theorem RequestScope_guard_witness:
  "fst (call_get 0 RequestScope_init ''str'') = Raised NoRequestError
   \<and> fst (call_bind 0 RequestScope_init ''str'' (PyStr ''x'')) = Raised NoRequestError
   \<and> fst (call_unbind 0 RequestScope_init ''str'') = Raised NoRequestError
   \<and> call_bind 0 (snd (RequestScope_start 0 RequestScope_init)) ''str'' (PyStr ''x'')
       = AbstractScope_bind 0 (snd (RequestScope_start 0 RequestScope_init)) ''str'' (PyStr ''x'')
   \<and> fst (call_bind 0 (snd (RequestScope_start 0 RequestScope_init)) ''str'' (PyStr ''x''))
       \<noteq> Raised NoRequestError"
proof -
  have i: "is_RequestScope RequestScope_init" by (rule is_RequestScope_init)
  have n: "\<not> active 0 RequestScope_init"
    by (simp add: RequestScope_init_def new_scope_def active_def)
  have j: "is_RequestScope (snd (RequestScope_start 0 RequestScope_init))"
    and a: "active 0 (snd (RequestScope_start 0 RequestScope_init))"
    using RequestScope_start_active[OF i, of 0] by simp_all
  have g1: "fst (call_get 0 RequestScope_init ''str'') = Raised NoRequestError
     \<and> fst (call_bind 0 RequestScope_init ''str'' (PyStr ''x'')) = Raised NoRequestError
     \<and> fst (call_unbind 0 RequestScope_init ''str'') = Raised NoRequestError"
    using RequestScope_guard[OF i, of 0 "''str''" "PyStr ''x''"] n by blast
  have g2: "call_bind 0 (snd (RequestScope_start 0 RequestScope_init)) ''str'' (PyStr ''x'')
       = AbstractScope_bind 0 (snd (RequestScope_start 0 RequestScope_init)) ''str'' (PyStr ''x'')
     \<and> fst (call_bind 0 (snd (RequestScope_start 0 RequestScope_init)) ''str'' (PyStr ''x''))
       \<noteq> Raised NoRequestError"
    using RequestScope_guard[OF j, of 0 "''str''" "PyStr ''x''"] a by blast
  from g1 g2 show ?thesis by blast
qed

subsection \<open>C3: a factory is called once and its result kept\<close>

text \<open>
  C3, as the code has it. Take a scope whose guard, if it has one, lets the calling thread
  \<open>t\<close> pass (on a RequestScope: \<open>t\<close> has a request started), a key \<open>k\<close> that the
  thread's dictionary does not bind, and a factory bound for \<open>k\<close> whose next call returns
  \<open>r\<close>. Then the first \<^verbatim>\<open>get(k)\<close> calls the factory exactly once, binds \<open>r\<close> to \<open>k\<close>
  and returns \<open>r\<close>. After any further calls \<open>cs\<close>, by any threads, \<^verbatim>\<open>get(k)\<close> by \<open>t\<close>
  again returns \<open>r\<close> and changes nothing, so the factory is not called again, provided
  that no \<^verbatim>\<open>unbind(k)\<close> removed a binding in between (the log has no \<open>Unbound k\<close>; a
  \<^verbatim>\<open>bind(k, v)\<close> on a bound key unbinds it first and logs it too) and, on a
  RequestScope, that \<open>t\<close> did not call \<^verbatim>\<open>end()\<close> in between.
\<close>

theorem factory_memoized:
  assumes "is_RequestScope s \<longrightarrow> active t s"
    and "data_of t (bindings s) k = None"
    and "factories s k = Some (Callable i body)"
    and "body (count_list (calls s) i) = Some r"
  shows "fst (call_get t s k) = Returned r
       \<and> calls (snd (call_get t s k)) = calls s @ [i]
       \<and> data_of t (bindings (snd (call_get t s k))) k = Some r
       \<and> (\<forall>cs. Unbound k \<notin> set (logged_since (snd (call_get t s k))
                                   (run cs (snd (call_get t s k))))
               \<and> (is_RequestScope s \<longrightarrow> (t, End) \<notin> set cs) \<longrightarrow>
            call_get t (run cs (snd (call_get t s k))) k
              = (Returned r, run cs (snd (call_get t s k))))"
proof -
  let ?s1 = "snd (call_get t s k)"
  have eq: "call_get t s k =
      (Returned r, s\<lparr>bindings := setitem t (bindings s) k r,
         logged := logged s @ [Bound k r], calls := calls s @ [i]\<rparr>)"
    using assms by (simp add: call_get_ok AbstractScope_get_factory)
  have d1: "data_of t (bindings ?s1) k = Some r" by (simp add: eq)
  have rs1: "is_RequestScope ?s1 = is_RequestScope s"
    by (simp add: eq is_RequestScope_def setitem_def)
  have ok1: "is_RequestScope ?s1 \<longrightarrow> active t ?s1"
    using assms(1) by (simp add: eq is_RequestScope_def active_def setitem_def)
  have later: "call_get t (run cs ?s1) k = (Returned r, run cs ?s1)"
    if "Unbound k \<notin> set (logged_since ?s1 (run cs ?s1))"
      and "is_RequestScope s \<longrightarrow> (t, End) \<notin> set cs" for cs
  proof -
    have e: "is_RequestScope ?s1 \<longrightarrow> (t, End) \<notin> set cs" using that(2) rs1 by simp
    have "data_of t (bindings (run cs ?s1)) k = Some r
        \<and> (is_RequestScope (run cs ?s1) \<longrightarrow> active t (run cs ?s1))"
      by (rule run_keeps[OF d1 ok1 that(1) e])
    then show ?thesis by (simp add: call_get_ok AbstractScope_get_bound)
  qed
  show ?thesis using eq d1 later by simp
qed

text \<open>A ThreadScope with a factory for \<open>''list''\<close> that makes a new object at each
  call: the first \<^verbatim>\<open>get\<close> returns the object 0, and so does a \<^verbatim>\<open>get\<close> after three
  other calls, one of them a \<^verbatim>\<open>get\<close> of the same key.\<close>

theorem factory_memoized_witness:
  "fst (call_get 0 (snd (bind_factory ThreadScope_init ''list'' (PyFun (Callable 0 fresh_body))))
          ''list'') = Returned (PyRef 0)
   \<and> call_get 0 (run [(0, Bind ''int'' (PyInt 5)), (0, Get ''list''), (0, Unbind ''int'')]
         (snd (call_get 0 (snd (bind_factory ThreadScope_init ''list''
                                   (PyFun (Callable 0 fresh_body)))) ''list''))) ''list''
       = (Returned (PyRef 0),
          run [(0, Bind ''int'' (PyInt 5)), (0, Get ''list''), (0, Unbind ''int'')]
           (snd (call_get 0 (snd (bind_factory ThreadScope_init ''list''
                                   (PyFun (Callable 0 fresh_body)))) ''list'')))"
proof -
  let ?s = "snd (bind_factory ThreadScope_init ''list'' (PyFun (Callable 0 fresh_body)))"
  let ?cs = "[(0, Bind ''int'' (PyInt 5)), (0, Get ''list''), (0::nat, Unbind ''int'')]"
  have h1: "is_RequestScope ?s \<longrightarrow> active 0 ?s"
    by (simp add: ThreadScope_bind_factory_eq is_RequestScope_def)
  have h2: "data_of 0 (bindings ?s) ''list'' = None"
    by (simp add: ThreadScope_bind_factory_eq)
  have h3: "factories ?s ''list'' = Some (Callable 0 fresh_body)"
    by (simp add: ThreadScope_bind_factory_eq)
  have h4: "fresh_body (count_list (calls ?s) 0) = Some (PyRef 0)"
    by (simp add: ThreadScope_bind_factory_eq fresh_body_def)
  have c1: "Unbound ''list'' \<notin> set (logged_since (snd (call_get 0 ?s ''list''))
                                       (run ?cs (snd (call_get 0 ?s ''list''))))"
    by (simp add: scope_defs)
  have c2: "is_RequestScope ?s \<longrightarrow> (0, End) \<notin> set ?cs" by simp
  have first: "fst (call_get 0 ?s ''list'') = Returned (PyRef 0)"
    using factory_memoized[OF h1 h2 h3 h4] by blast
  have later: "call_get 0 (run ?cs (snd (call_get 0 ?s ''list''))) ''list''
      = (Returned (PyRef 0), run ?cs (snd (call_get 0 ?s ''list'')))"
    using factory_memoized[OF h1 h2 h3 h4] c1 c2 by blast
  from first later show ?thesis by simp
qed

text \<open>
  C3 as it is worded speaks of every scope and excepts only an \<^verbatim>\<open>unbind(k)\<close> in between.
  On a RequestScope with a factory for \<open>''k''\<close>: before \<^verbatim>\<open>start()\<close> the first
  \<^verbatim>\<open>get(''k'')\<close> raises \<^verbatim>\<open>NoRequestError\<close> and calls nothing; and after
  \<^verbatim>\<open>start(); get(''k''); end(); start()\<close>, where the first \<^verbatim>\<open>get\<close> returned the object
  0 and nothing was unbound, \<^verbatim>\<open>get(''k'')\<close> calls the factory a second time and returns
  the object 1.
\<close>

theorem factory_memoized_cex:
  "fst (call_get 0 (snd (bind_factory RequestScope_init ''k'' (PyFun (Callable 0 fresh_body))))
          ''k'') = Raised NoRequestError
   \<and> calls (snd (call_get 0 (snd (bind_factory RequestScope_init ''k''
                                     (PyFun (Callable 0 fresh_body)))) ''k'')) = []
   \<and> fst (call_get 0 (run [(0, Start)]
            (snd (bind_factory RequestScope_init ''k'' (PyFun (Callable 0 fresh_body))))) ''k'')
       = Returned (PyRef 0)
   \<and> logged (run [(0, Start), (0, Get ''k''), (0, End), (0, Start)]
        (snd (bind_factory RequestScope_init ''k'' (PyFun (Callable 0 fresh_body)))))
       = [Bound ''k'' (PyRef 0)]
   \<and> fst (call_get 0 (run [(0, Start), (0, Get ''k''), (0, End), (0, Start)]
            (snd (bind_factory RequestScope_init ''k'' (PyFun (Callable 0 fresh_body))))) ''k'')
       = Returned (PyRef 1)
   \<and> calls (snd (call_get 0 (run [(0, Start), (0, Get ''k''), (0, End), (0, Start)]
            (snd (bind_factory RequestScope_init ''k'' (PyFun (Callable 0 fresh_body))))) ''k''))
       = [0, 0]"
  by (simp add: scope_defs)

subsection \<open>C4: the order in which get resolves a key\<close>

text \<open>
  C4, as the code has it. For every scope whose guard, if it has one, lets the calling
  thread pass (an ApplicationScope, a ThreadScope, or a RequestScope on a thread with a
  request started) and every key \<open>k\<close>: if the thread's dictionary binds \<open>k\<close>, \<^verbatim>\<open>get(k)\<close>
  returns the bound value and changes nothing; else if a factory is bound for \<open>k\<close> and its
  call returns \<open>r\<close>, the factory is called once, \<open>r\<close> is bound to \<open>k\<close> and returned; else
  \<^verbatim>\<open>get(k)\<close> returns \<^verbatim>\<open>None\<close>, raises nothing and changes nothing.
\<close>

theorem get_resolution_order:
  assumes "is_RequestScope s \<longrightarrow> active t s"
  shows "(\<forall>v. data_of t (bindings s) k = Some v \<longrightarrow> call_get t s k = (Returned v, s))
       \<and> (\<forall>i body r. data_of t (bindings s) k = None \<and> factories s k = Some (Callable i body)
              \<and> body (count_list (calls s) i) = Some r \<longrightarrow>
            fst (call_get t s k) = Returned r
            \<and> calls (snd (call_get t s k)) = calls s @ [i]
            \<and> data_of t (bindings (snd (call_get t s k))) k = Some r)
       \<and> (data_of t (bindings s) k = None \<and> factories s k = None \<longrightarrow>
            call_get t s k = (Returned PyNone, s))"
  using assms
  by (simp add: call_get_ok AbstractScope_get_bound AbstractScope_get_absent
      AbstractScope_get_factory)

text \<open>The three branches: an ApplicationScope asked for its own class and for an unbound
  key, and a ThreadScope asked for a key with a factory.\<close>

theorem get_resolution_order_witness:
  "call_get 0 (ApplicationScope_init 7) ''ApplicationScope''
     = (Returned (PyRef 7), ApplicationScope_init 7)
   \<and> call_get 0 (ApplicationScope_init 7) ''int'' = (Returned PyNone, ApplicationScope_init 7)
   \<and> fst (call_get 0 (snd (bind_factory ThreadScope_init ''list'' (PyFun (Callable 0 fresh_body))))
            ''list'') = Returned (PyRef 0)
   \<and> calls (snd (call_get 0
        (snd (bind_factory ThreadScope_init ''list'' (PyFun (Callable 0 fresh_body)))) ''list''))
       = [0]"
proof -
  let ?a = "ApplicationScope_init 7"
  let ?f = "snd (bind_factory ThreadScope_init ''list'' (PyFun (Callable 0 fresh_body)))"
  have oka: "is_RequestScope ?a \<longrightarrow> active 0 ?a"
    by (simp add: ApplicationScope_init_eq is_RequestScope_def)
  have okf: "is_RequestScope ?f \<longrightarrow> active 0 ?f"
    by (simp add: ThreadScope_bind_factory_eq is_RequestScope_def)
  have a1: "data_of 0 (bindings ?a) ''ApplicationScope'' = Some (PyRef 7)"
    by (simp add: ApplicationScope_init_eq)
  have a2: "data_of 0 (bindings ?a) ''int'' = None \<and> factories ?a ''int'' = None"
    by (simp add: ApplicationScope_init_eq)
  have f1: "data_of 0 (bindings ?f) ''list'' = None
      \<and> factories ?f ''list'' = Some (Callable 0 fresh_body)
      \<and> fresh_body (count_list (calls ?f) 0) = Some (PyRef 0)"
    by (simp add: ThreadScope_bind_factory_eq fresh_body_def)
  have g1: "call_get 0 ?a ''ApplicationScope'' = (Returned (PyRef 7), ?a)"
    using get_resolution_order[OF oka, of "''ApplicationScope''"] a1 by blast
  have g2: "call_get 0 ?a ''int'' = (Returned PyNone, ?a)"
    using get_resolution_order[OF oka, of "''int''"] a2 by blast
  have g3: "fst (call_get 0 ?f ''list'') = Returned (PyRef 0)
      \<and> calls (snd (call_get 0 ?f ''list'')) = calls ?f @ [0]"
    using get_resolution_order[OF okf, of "''list''"] f1 by blast
  have c: "calls ?f = []" by (simp add: ThreadScope_bind_factory_eq)
  from g1 g2 g3 c show ?thesis by simp
qed

text \<open>
  C4 as it is worded speaks of every scope. On a new RequestScope, where \<open>''k''\<close> has
  neither a binding nor a factory, \<^verbatim>\<open>get(''k'')\<close> raises \<^verbatim>\<open>NoRequestError\<close> and
  does not return \<^verbatim>\<open>None\<close>.
\<close>

theorem get_raises_outside_request_cex:
  "data_of 0 (bindings RequestScope_init) ''k'' = None
   \<and> factories RequestScope_init ''k'' = None
   \<and> fst (call_get 0 RequestScope_init ''k'') = Raised NoRequestError
   \<and> fst (call_get 0 RequestScope_init ''k'') \<noteq> Returned PyNone"
  by (simp add: scope_defs)

subsection \<open>C5: end clears the bindings and keeps the factories\<close>

text \<open>
  C5. On a RequestScope and for a thread \<open>t\<close> with a request started, \<^verbatim>\<open>end()\<close> returns,
  leaves \<open>t\<close>'s dictionary empty and \<open>t\<close>'s flag false, and does not change the
  factories. So after the next \<^verbatim>\<open>start()\<close> by \<open>t\<close> a key is factory-bound exactly if it
  was before \<^verbatim>\<open>end()\<close>, and the first \<^verbatim>\<open>get(k)\<close> of a key with a factory calls the
  factory again (and returns what that call returns).
\<close>

theorem end_keeps_factories:
  assumes "is_RequestScope s" and "active t s"
  shows "fst (RequestScope_end t s) = Returned PyNone
       \<and> data_of t (bindings (snd (RequestScope_end t s))) = Map.empty
       \<and> \<not> active t (snd (RequestScope_end t s))
       \<and> factories (snd (RequestScope_end t s)) = factories s
       \<and> fst (is_factory_bound (snd (RequestScope_start t (snd (RequestScope_end t s)))) k)
           = fst (is_factory_bound s k)
       \<and> (\<forall>i body. factories s k = Some (Callable i body) \<longrightarrow>
            calls (snd (call_get t (snd (RequestScope_start t (snd (RequestScope_end t s)))) k))
              = calls s @ [i])
       \<and> (\<forall>i body r. factories s k = Some (Callable i body)
              \<and> body (count_list (calls s) i) = Some r \<longrightarrow>
            fst (call_get t (snd (RequestScope_start t (snd (RequestScope_end t s)))) k)
              = Returned r)"
proof -
  let ?e = "snd (RequestScope_end t s)"
  let ?n = "snd (RequestScope_start t ?e)"
  have re: "is_RequestScope ?e" by (rule RequestScope_end_eq(7)[OF assms(1)])
  have okn: "is_RequestScope ?n \<longrightarrow> active t ?n"
    by (simp add: RequestScope_start_eq(3)[OF re])
  have dn: "data_of t (bindings ?n) k = None"
    by (simp add: RequestScope_start_eq(2)[OF re] RequestScope_end_eq(2)[OF assms(1)])
  have fn: "factories ?n = factories s"
    by (simp add: RequestScope_start_eq(4)[OF re] RequestScope_end_eq(4)[OF assms(1)])
  have cn: "calls ?n = calls s"
    by (simp add: RequestScope_start_eq(5)[OF re] RequestScope_end_eq(5)[OF assms(1)])
  have inv: "calls (snd (call_get t ?n k)) = calls s @ [i]"
    if "factories s k = Some (Callable i body)" for i body
  proof (cases "body (count_list (calls s) i)")
    case None
    with that dn fn cn show ?thesis
      by (simp add: call_get_ok[OF okn] AbstractScope_get_factory_raises)
  next
    case (Some r)
    with that dn fn cn show ?thesis
      by (simp add: call_get_ok[OF okn] AbstractScope_get_factory[OF okn])
  qed
  have res: "fst (call_get t ?n k) = Returned r"
    if "factories s k = Some (Callable i body)" "body (count_list (calls s) i) = Some r"
    for i body r
    using that dn fn cn by (simp add: call_get_ok[OF okn] AbstractScope_get_factory[OF okn])
  have fb: "fst (is_factory_bound ?n k) = fst (is_factory_bound s k)"
    by (simp add: is_factory_bound_def fn)
  show ?thesis
    using inv res fb
    by (simp add: RequestScope_end_eq[OF assms(1)])
qed

text \<open>A request in which \<^verbatim>\<open>get(''list'')\<close> has called the factory once; after
  \<^verbatim>\<open>end()\<close> and \<^verbatim>\<open>start()\<close> the factory is still bound and is called a second time.\<close>

theorem end_keeps_factories_witness:
  "data_of 0 (bindings (snd (RequestScope_end 0
       (run [(0, BindFactory ''list'' (PyFun (Callable 0 fresh_body))), (0, Start),
             (0, Get ''list'')] RequestScope_init)))) = Map.empty
   \<and> fst (is_factory_bound (snd (RequestScope_start 0 (snd (RequestScope_end 0
       (run [(0, BindFactory ''list'' (PyFun (Callable 0 fresh_body))), (0, Start),
             (0, Get ''list'')] RequestScope_init))))) ''list'') = Returned True
   \<and> calls (snd (call_get 0 (snd (RequestScope_start 0 (snd (RequestScope_end 0
       (run [(0, BindFactory ''list'' (PyFun (Callable 0 fresh_body))), (0, Start),
             (0, Get ''list'')] RequestScope_init))))) ''list'')) = [0, 0]
   \<and> fst (call_get 0 (snd (RequestScope_start 0 (snd (RequestScope_end 0
       (run [(0, BindFactory ''list'' (PyFun (Callable 0 fresh_body))), (0, Start),
             (0, Get ''list'')] RequestScope_init))))) ''list'') = Returned (PyRef 1)"
proof -
  let ?s = "run [(0, BindFactory ''list'' (PyFun (Callable 0 fresh_body))), (0, Start),
             (0, Get ''list'')] RequestScope_init"
  have h1: "is_RequestScope ?s" by (simp add: scope_defs)
  have h2: "active 0 ?s" by (simp add: scope_defs)
  have f: "factories ?s ''list'' = Some (Callable 0 fresh_body)" by (simp add: scope_defs)
  have c: "calls ?s = [0]" by (simp add: scope_defs)
  have b: "fresh_body (count_list (calls ?s) 0) = Some (PyRef 1)"
    by (simp add: scope_defs)
  have fb: "fst (is_factory_bound ?s ''list'') = Returned True"
    by (simp add: scope_defs)
  have g1: "data_of 0 (bindings (snd (RequestScope_end 0 ?s))) = Map.empty"
    using end_keeps_factories[OF h1 h2, of "''list''"] by blast
  have g2: "fst (is_factory_bound (snd (RequestScope_start 0 (snd (RequestScope_end 0 ?s)))) ''list'')
      = fst (is_factory_bound ?s ''list'')"
    using end_keeps_factories[OF h1 h2, of "''list''"] by blast
  have g3: "calls (snd (call_get 0 (snd (RequestScope_start 0 (snd (RequestScope_end 0 ?s)))) ''list''))
      = calls ?s @ [0]"
    using end_keeps_factories[OF h1 h2, of "''list''"] f by blast
  have g4: "fst (call_get 0 (snd (RequestScope_start 0 (snd (RequestScope_end 0 ?s)))) ''list'')
      = Returned (PyRef 1)"
    using end_keeps_factories[OF h1 h2, of "''list''"] f b by blast
  from g1 g2 g3 g4 fb c show ?thesis by simp
qed

subsection \<open>C6: bind, then get; binding twice\<close>



subsection \<open>C7: the bindings and the factories are separate\<close>

text \<open>
  C7. For every scope, \<^verbatim>\<open>bind_factory(k, f)\<close> and \<^verbatim>\<open>unbind_factory(k)\<close> leave
  \<^verbatim>\<open>_bindings\<close> as it was, so \<^verbatim>\<open>is_bound(j)\<close> and the value \<^verbatim>\<open>get(j)\<close> reads from
  the bindings are the same for every thread \<open>u\<close> and key \<open>j\<close>; and \<^verbatim>\<open>bind(k, v)\<close> and
  \<^verbatim>\<open>unbind(k)\<close> leave the factories as they were, so \<^verbatim>\<open>is_factory_bound(j)\<close> is the
  same for every key \<open>j\<close>. This holds whether the call returns or raises.
\<close>

theorem maps_independent:
  "bindings (snd (bind_factory s k f)) = bindings s
   \<and> bindings (snd (unbind_factory s k)) = bindings s
   \<and> fst (is_bound u (snd (bind_factory s k f)) j) = fst (is_bound u s j)
   \<and> fst (is_bound u (snd (unbind_factory s k)) j) = fst (is_bound u s j)
   \<and> get_item u (bindings (snd (bind_factory s k f))) j = get_item u (bindings s) j
   \<and> get_item u (bindings (snd (unbind_factory s k))) j = get_item u (bindings s) j
   \<and> factories (snd (call_bind t s k v)) = factories s
   \<and> factories (snd (call_unbind t s k)) = factories s
   \<and> fst (is_factory_bound (snd (call_bind t s k v)) j) = fst (is_factory_bound s j)
   \<and> fst (is_factory_bound (snd (call_unbind t s k)) j) = fst (is_factory_bound s j)"
proof -
  have uf: "bindings (snd (unbind_factory s k)) = bindings s"
    by (simp add: unbind_factory_def)
  have bf: "bindings (snd (bind_factory s k f)) = bindings s"
    by (cases f) (simp_all add: bind_factory_def unbind_factory_def)
  have ub: "factories (snd (call_unbind t s k)) = factories s"
    by (simp add: call_unbind_def RequestScope_unbind_def request_required_def
        AbstractScope_unbind_def)
  have b: "factories (snd (call_bind t s k v)) = factories s"
  proof (cases "is_RequestScope s \<longrightarrow> active t s")
    case True
    then show ?thesis by (rule call_bind_state(5))
  next
    case False
    then show ?thesis by (simp add: call_bind_inactive)
  qed
  show ?thesis
    by (simp add: uf bf ub b is_bound_def is_factory_bound_def)
qed

text \<open>The theorem at an ApplicationScope and at a ThreadScope with a factory.\<close>

theorem maps_independent_witness:
  "bindings (snd (bind_factory (ApplicationScope_init 7) ''int'' (PyFun (Callable 0 fresh_body))))
     = bindings (ApplicationScope_init 7)
   \<and> factories (snd (call_bind 0
        (snd (bind_factory ThreadScope_init ''list'' (PyFun (Callable 0 fresh_body))))
        ''list'' (PyInt 5)))
     = factories (snd (bind_factory ThreadScope_init ''list'' (PyFun (Callable 0 fresh_body))))"
  using maps_independent[where s = "ApplicationScope_init 7" and k = "''int''"
      and f = "PyFun (Callable 0 fresh_body)"]
    maps_independent[where t = 0
      and s = "snd (bind_factory ThreadScope_init ''list'' (PyFun (Callable 0 fresh_body)))"
      and k = "''list''" and v = "PyInt 5"]
  by blast

subsection \<open>C8: is_bound and is_factory_bound have no guard\<close>

text \<open>
  C8. RequestScope inherits \<^verbatim>\<open>is_bound\<close> and \<^verbatim>\<open>is_factory_bound\<close>. On every scope
  and for every thread, with a request started or not, they return and never raise
  \<^verbatim>\<open>NoRequestError\<close>: \<^verbatim>\<open>is_bound(k)\<close> tells whether the calling thread's dictionary,
  as it is, has \<open>k\<close>, and \<^verbatim>\<open>is_factory_bound(k)\<close> whether the factories have \<open>k\<close>. On a
  RequestScope that was never started both are false; after \<^verbatim>\<open>end()\<close> the dictionary
  that is left is empty, so \<^verbatim>\<open>is_bound(k)\<close> is false, and \<^verbatim>\<open>is_factory_bound(k)\<close> is
  what it was.
\<close>

theorem probes_unguarded:
  "is_bound t s k = (Returned (k \<in> dom (data_of t (bindings s))), s)
   \<and> is_factory_bound s k = (Returned (k \<in> dom (factories s)), s)
   \<and> fst (is_bound t s k) \<noteq> Raised NoRequestError
   \<and> fst (is_factory_bound s k) \<noteq> Raised NoRequestError
   \<and> fst (is_bound t RequestScope_init k) = Returned False
   \<and> fst (is_factory_bound RequestScope_init k) = Returned False
   \<and> (is_RequestScope s \<longrightarrow>
         fst (is_bound t (snd (RequestScope_end t s)) k) = Returned False
       \<and> fst (is_factory_bound (snd (RequestScope_end t s)) k) = fst (is_factory_bound s k))"
proof -
  have a: "is_bound t s k = (Returned (k \<in> dom (data_of t (bindings s))), s)"
    by (auto simp add: is_bound_def contains_def)
  have b: "is_factory_bound s k = (Returned (k \<in> dom (factories s)), s)"
    by (auto simp add: is_factory_bound_def)
  have c: "fst (is_bound t RequestScope_init k) = Returned False
      \<and> fst (is_factory_bound RequestScope_init k) = Returned False"
    by (simp add: is_bound_def is_factory_bound_def contains_def RequestScope_init_def
        new_scope_def)
  have d: "fst (is_bound t (snd (RequestScope_end t s)) k) = Returned False
      \<and> fst (is_factory_bound (snd (RequestScope_end t s)) k) = fst (is_factory_bound s k)"
    if "is_RequestScope s"
    by (simp add: is_bound_def is_factory_bound_def contains_def RequestScope_end_eq[OF that])
  show ?thesis using a b c d by simp
qed

text \<open>A RequestScope after \<^verbatim>\<open>end()\<close>: the probes answer, where \<^verbatim>\<open>get\<close> raises.\<close>

theorem probes_unguarded_witness:
  "fst (is_bound 0 (run [(0, BindFactory ''list'' (PyFun (Callable 0 fresh_body))), (0, Start),
         (0, Bind ''str'' (PyStr ''x'')), (0, End)] RequestScope_init) ''str'') = Returned False
   \<and> fst (is_factory_bound (run [(0, BindFactory ''list'' (PyFun (Callable 0 fresh_body))),
         (0, Start), (0, Bind ''str'' (PyStr ''x'')), (0, End)] RequestScope_init) ''list'')
       = Returned True
   \<and> fst (call_get 0 (run [(0, BindFactory ''list'' (PyFun (Callable 0 fresh_body))),
         (0, Start), (0, Bind ''str'' (PyStr ''x'')), (0, End)] RequestScope_init) ''str'')
       = Raised NoRequestError"
proof -
  let ?r = "run [(0, BindFactory ''list'' (PyFun (Callable 0 fresh_body))), (0, Start),
         (0, Bind ''str'' (PyStr ''x''))] RequestScope_init"
  let ?s = "run [(0, BindFactory ''list'' (PyFun (Callable 0 fresh_body))), (0, Start),
         (0, Bind ''str'' (PyStr ''x'')), (0, End)] RequestScope_init"
  have e: "?s = snd (RequestScope_end 0 ?r)" by simp
  have i: "is_RequestScope ?r" by (simp add: scope_defs)
  have f: "fst (is_factory_bound ?r ''list'') = Returned True" by (simp add: scope_defs)
  have g: "fst (call_get 0 ?s ''str'') = Raised NoRequestError" by (simp add: scope_defs)
  have r1: "fst (is_bound 0 (snd (RequestScope_end 0 ?r)) ''str'') = Returned False"
    using probes_unguarded[of 0 ?r "''str''"] i by blast
  have r2: "fst (is_factory_bound (snd (RequestScope_end 0 ?r)) ''list'')
      = fst (is_factory_bound ?r ''list'')"
    using probes_unguarded[of 0 ?r "''list''"] i by blast
  show ?thesis
    unfolding e using r1 r2 f g[unfolded e] by simp
qed

subsection \<open>C9: binding None\<close>



subsection \<open>C10: start and end have no guard\<close>

text \<open>
  C10. On a RequestScope \<^verbatim>\<open>start()\<close> and \<^verbatim>\<open>end()\<close> return for every thread, with
  a request started or not. \<^verbatim>\<open>end()\<close> leaves the thread's dictionary empty and its flag
  false. \<^verbatim>\<open>start()\<close> changes no dictionary, and a second \<^verbatim>\<open>start()\<close> right after
  the first leaves the flag true and the bindings as they were.
\<close>

theorem start_end_unguarded:
  assumes "is_RequestScope s"
  shows "fst (RequestScope_end t s) = Returned PyNone
       \<and> data_of t (bindings (snd (RequestScope_end t s))) = Map.empty
       \<and> \<not> active t (snd (RequestScope_end t s))
       \<and> fst (RequestScope_start t s) = Returned PyNone
       \<and> fst (RequestScope_start t (snd (RequestScope_start t s))) = Returned PyNone
       \<and> active t (snd (RequestScope_start t (snd (RequestScope_start t s))))
       \<and> bindings (snd (RequestScope_start t (snd (RequestScope_start t s))))
           = bindings (snd (RequestScope_start t s))
       \<and> data_of u (bindings (snd (RequestScope_start t s))) = data_of u (bindings s)"
proof -
  have rs: "is_RequestScope (snd (RequestScope_start t s))"
    by (rule RequestScope_start_eq(7)[OF assms])
  show ?thesis
    by (simp add: RequestScope_end_eq[OF assms] RequestScope_start_eq[OF assms]
        RequestScope_start_eq(1)[OF rs] RequestScope_start_twice[OF assms])
qed

text \<open>\<^verbatim>\<open>end()\<close> on a RequestScope that was never started, and \<^verbatim>\<open>start()\<close> twice
  after a \<^verbatim>\<open>bind\<close>.\<close>

theorem start_end_unguarded_witness:
  "fst (RequestScope_end 0 RequestScope_init) = Returned PyNone
   \<and> \<not> active 0 (snd (RequestScope_end 0 RequestScope_init))
   \<and> data_of 0 (bindings (snd (RequestScope_end 0 RequestScope_init))) = Map.empty
   \<and> active 0 (snd (RequestScope_start 0 (snd (RequestScope_start 0
        (run [(0, Start), (0, Bind ''str'' (PyStr ''x''))] RequestScope_init)))))
   \<and> data_of 0 (bindings (snd (RequestScope_start 0
        (run [(0, Start), (0, Bind ''str'' (PyStr ''x''))] RequestScope_init)))) ''str''
       = Some (PyStr ''x'')"
proof -
  let ?s = "run [(0, Start), (0, Bind ''str'' (PyStr ''x''))] RequestScope_init"
  have i: "is_RequestScope RequestScope_init" by (rule is_RequestScope_init)
  have j: "is_RequestScope ?s" by (simp add: scope_defs)
  have d: "data_of 0 (bindings ?s) ''str'' = Some (PyStr ''x'')" by (simp add: scope_defs)
  have g1: "fst (RequestScope_end 0 RequestScope_init) = Returned PyNone
      \<and> \<not> active 0 (snd (RequestScope_end 0 RequestScope_init))
      \<and> data_of 0 (bindings (snd (RequestScope_end 0 RequestScope_init))) = Map.empty"
    using start_end_unguarded[OF i, of 0 0] by blast
  have g2: "active 0 (snd (RequestScope_start 0 (snd (RequestScope_start 0 ?s))))
      \<and> data_of 0 (bindings (snd (RequestScope_start 0 ?s))) = data_of 0 (bindings ?s)"
    using start_end_unguarded[OF j, of 0 0] by blast
  from g1 g2 d show ?thesis by simp
qed

end
